theory Spec2Isabelle
  imports Main "HOL-Library.AList" "HOL-Library.Multiset"
begin

section \<open>Data model\<close>

text \<open>
  The front end is JavaScript: its strings are sequences of UTF-16 code units, and
  \<^verbatim>\<open>slice\<close> counts code units. A string is therefore a list of code units, each a
  natural number. The two schedule types the code compares with are Korean words.
\<close>

type_synonym jsstring = "nat list"

definition farm_label :: jsstring where
  \<comment> \<open>U+B18D U+AC00, "nong-ga" (farm household)\<close>
  "farm_label = [0xB18D, 0xAC00]"

definition tour_label :: jsstring where
  \<comment> \<open>U+AD00 U+AD11 U+C9C0, "gwan-gwang-ji" (tourist attraction)\<close>
  "tour_label = [0xAD00, 0xAD11, 0xC9C0]"

text \<open>One entry of \<^verbatim>\<open>sched.itinerary\<close>, as the engine returns it.\<close>

record ScheduleItem =
  day :: int
  date :: jsstring
  schedule_type :: jsstring
  name :: jsstring
  start_time :: jsstring
  address :: jsstring

section \<open>The grouping pass of renderScheduleTable and renderMiniTime\<close>

text \<open>
  Both functions run the same loop over the itinerary, with the list
  \<^verbatim>\<open>groupedSchedule\<close> and the variable \<^verbatim>\<open>currentGroup\<close> (null at first).
  A group is the object literal \<^verbatim>\<open>{type, startDay, endDay, items}\<close>.
\<close>

record schedule_group =
  group_type :: jsstring
  startDay :: int
  endDay :: int
  items :: "ScheduleItem list"

definition new_group :: "jsstring \<Rightarrow> ScheduleItem \<Rightarrow> schedule_group" where
  "new_group t item =
     \<lparr>group_type = t, startDay = day item, endDay = day item, items = [item]\<rparr>"

definition push_current ::
  "schedule_group list \<Rightarrow> schedule_group option \<Rightarrow> schedule_group list" where
  \<comment> \<open>\<^verbatim>\<open>if (currentGroup) groupedSchedule.push(currentGroup)\<close>\<close>
  "push_current gs cur = (case cur of None \<Rightarrow> gs | Some g \<Rightarrow> gs @ [g])"

fun group_step ::
  "schedule_group list \<times> schedule_group option \<Rightarrow> ScheduleItem
     \<Rightarrow> schedule_group list \<times> schedule_group option" where
  "group_step (gs, cur) item =
     (if schedule_type item = farm_label then
        (case cur of
           Some g \<Rightarrow>
             if group_type g = farm_label
             then (gs, Some (g\<lparr>endDay := day item, items := items g @ [item]\<rparr>))
             else (push_current gs cur, Some (new_group farm_label item))
         | None \<Rightarrow> (push_current gs cur, Some (new_group farm_label item)))
      else
        (case cur of
           Some g \<Rightarrow>
             if group_type g = tour_label \<and> startDay g = day item
             then (gs, Some (g\<lparr>items := items g @ [item]\<rparr>))
             else (push_current gs cur, Some (new_group tour_label item))
         | None \<Rightarrow> (push_current gs cur, Some (new_group tour_label item))))"

fun group_loop ::
  "ScheduleItem list \<Rightarrow> schedule_group list \<times> schedule_group option
     \<Rightarrow> schedule_group list \<times> schedule_group option" where
  "group_loop [] st = st"
| "group_loop (item # rest) st = group_loop rest (group_step st item)"

definition groupedSchedule :: "ScheduleItem list \<Rightarrow> schedule_group list" where
  \<comment> \<open>the early return on an empty itinerary renders no group either\<close>
  "groupedSchedule itinerary =
     (if itinerary = [] then []
      else case group_loop itinerary ([], None) of (gs, cur) \<Rightarrow> push_current gs cur)"

text \<open>
  What the grouped view has to satisfy. A group is well formed when it is not empty
  and either it is a farm group, holds farm items only and its day range runs from the
  day of its first item to the day of its last, or it is a tour group of a single day
  whose items are not farm items and all carry that day. Two neighbouring groups could
  have been joined when both are farm groups, or both are tour groups of one day.
\<close>

definition group_ok :: "schedule_group \<Rightarrow> bool" where
  "group_ok g =
     (items g \<noteq> [] \<and>
      (if group_type g = farm_label
       then startDay g = day (hd (items g)) \<and> endDay g = day (last (items g)) \<and>
            list_all (\<lambda>i. schedule_type i = farm_label) (items g)
       else group_type g = tour_label \<and> endDay g = startDay g \<and>
            list_all (\<lambda>i. schedule_type i \<noteq> farm_label \<and> day i = startDay g) (items g)))"

definition joinable :: "schedule_group \<Rightarrow> schedule_group \<Rightarrow> bool" where
  "joinable g h =
     (if group_type h = farm_label then group_type g = farm_label
      else group_type g = tour_label \<and> startDay g = startDay h)"

fun no_joinable_neighbours :: "schedule_group list \<Rightarrow> bool" where
  "no_joinable_neighbours [] = True"
| "no_joinable_neighbours [g] = True"
| "no_joinable_neighbours (g # h # rest) =
     (\<not> joinable g h \<and> no_joinable_neighbours (h # rest))"

text \<open>The loop invariant, on the groups pushed so far followed by the current one.\<close>

definition group_inv :: "schedule_group list \<times> schedule_group option \<Rightarrow> bool" where
  "group_inv st =
     (case st of (gs, cur) \<Rightarrow>
        (cur = None \<longrightarrow> gs = []) \<and>
        list_all group_ok (push_current gs cur) \<and>
        no_joinable_neighbours (push_current gs cur))"

section \<open>Calendar materialization: updateHomeCalendar and upsertCalendarEvents\<close>

text \<open>
  \<^verbatim>\<open>STATE.calendar\<close> is an object of objects of arrays: year-month key, then day key,
  then the events. An object is an association list here; writing a property that
  exists replaces its value in place and a new property goes to the end. The order of
  the keys plays no part in what follows.
\<close>

record CalendarEvent =
  activity :: jsstring
  date_ev :: jsstring
  type_ev :: jsstring
  day_ev :: int

type_synonym month_events = "(jsstring \<times> CalendarEvent list) list"
type_synonym calendar = "(jsstring \<times> month_events) list"

definition lookup_or :: "'v \<Rightarrow> ('k \<times> 'v) list \<Rightarrow> 'k \<Rightarrow> 'v" where
  \<comment> \<open>\<^verbatim>\<open>obj[k] || dflt\<close>, for an object whose values are objects or arrays (always truthy)\<close>
  "lookup_or dflt obj k = (case map_of obj k of None \<Rightarrow> dflt | Some v \<Rightarrow> v)"

definition slice :: "nat \<Rightarrow> nat \<Rightarrow> jsstring \<Rightarrow> jsstring" where
  \<comment> \<open>\<^verbatim>\<open>s.slice(a, b)\<close> for \<open>0 \<le> a \<le> b\<close>\<close>
  "slice a b s = take (b - a) (drop a s)"

definition same_event :: "ScheduleItem \<Rightarrow> CalendarEvent \<Rightarrow> bool" where
  \<comment> \<open>\<^verbatim>\<open>event.activity === item.name && event.type === item.schedule_type\<close>\<close>
  "same_event item event = (activity event = name item \<and> type_ev event = schedule_type item)"

definition event_of :: "ScheduleItem \<Rightarrow> CalendarEvent" where
  "event_of item =
     \<lparr>activity = name item,
      date_ev = date item @ (if start_time item \<noteq> [] then 32 # start_time item else []),
      type_ev = schedule_type item,
      day_ev = day item\<rparr>"

definition add_item :: "calendar \<Rightarrow> ScheduleItem \<Rightarrow> calendar" where
  "add_item cal item =
     (if date item \<noteq> [] \<and> name item \<noteq> [] then
        let dateStr = date item;
            yearMonth = slice 0 7 dateStr;
            d = slice 8 10 dateStr;
            month = lookup_or [] cal yearMonth;
            events = lookup_or [] month d;
            exists = list_ex (same_event item) events;
            events' = (if \<not> exists then events @ [event_of item] else events)
        in AList.update yearMonth (AList.update d events' month) cal
      else cal)"

definition updateHomeCalendar :: "calendar \<Rightarrow> ScheduleItem list option \<Rightarrow> calendar" where
  \<comment> \<open>the second argument is \<^verbatim>\<open>STATE.last_schedule?.itinerary\<close>\<close>
  "updateHomeCalendar cal itinerary =
     (case itinerary of None \<Rightarrow> cal | Some its \<Rightarrow> fold (\<lambda>item c. add_item c item) its cal)"

text \<open>
  \<^verbatim>\<open>upsertCalendarEvents\<close> files the records of a stored timeline under the first ten
  code units of \<^verbatim>\<open>item.datetime\<close>, and pushes without looking for the record. A record
  with no \<^verbatim>\<open>datetime\<close> is skipped. The entries of an itinerary and of the grouped
  schedule have no such property; the other properties of a record are the extension.
\<close>

record timeline_record =
  datetime :: "jsstring option"

definition upsert_record ::
  "(jsstring \<times> (jsstring \<times> 'a timeline_record_scheme list) list) list
     \<Rightarrow> 'a timeline_record_scheme
     \<Rightarrow> (jsstring \<times> (jsstring \<times> 'a timeline_record_scheme list) list) list" where
  "upsert_record cal item =
     (let key = slice 0 10 (case datetime item of None \<Rightarrow> [] | Some s \<Rightarrow> s)
      in if key = [] then cal
         else let yymm = slice 0 7 key;
                  month = lookup_or [] cal yymm;
                  records = lookup_or [] month key
              in AList.update yymm (AList.update key (records @ [item]) month) cal)"

definition upsertCalendarEvents ::
  "(jsstring \<times> (jsstring \<times> 'a timeline_record_scheme list) list) list
     \<Rightarrow> 'a timeline_record_scheme list option
     \<Rightarrow> (jsstring \<times> (jsstring \<times> 'a timeline_record_scheme list) list) list" where
  \<comment> \<open>\<^verbatim>\<open>(timeline || []).forEach(...)\<close>\<close>
  "upsertCalendarEvents cal timeline =
     fold (\<lambda>item c. upsert_record c item) (case timeline of None \<Rightarrow> [] | Some t \<Rightarrow> t) cal"

text \<open>
  No two events under one day key agree on activity and type.
\<close>

definition event_key :: "CalendarEvent \<Rightarrow> jsstring \<times> jsstring" where
  "event_key event = (activity event, type_ev event)"

definition no_duplicates :: "calendar \<Rightarrow> bool" where
  "no_duplicates cal =
     list_all (\<lambda>(ym, month). list_all (\<lambda>(d, events). distinct (map event_key events)) month) cal"

text \<open>An item is covered when the calendar already holds its event, or it is skipped.\<close>

definition covered :: "calendar \<Rightarrow> ScheduleItem \<Rightarrow> bool" where
  "covered cal item =
     (date item \<noteq> [] \<and> name item \<noteq> [] \<longrightarrow>
      list_ex (same_event item)
        (lookup_or [] (lookup_or [] cal (slice 0 7 (date item))) (slice 8 10 (date item))))"

text \<open>
  An itinerary for the examples: a tour day, two farm days and a day of three tour
  items, one of them listed twice.
\<close>

definition example_date :: "nat \<Rightarrow> jsstring" where
  \<comment> \<open>"2025-10-0n"\<close>
  "example_date n = [50, 48, 50, 53, 45, 49, 48, 45, 48, 48 + n]"

definition item_of :: "int \<Rightarrow> jsstring \<Rightarrow> jsstring \<Rightarrow> ScheduleItem" where
  "item_of d t n =
     \<lparr>day = d, date = example_date (nat d), schedule_type = t, name = n,
      start_time = [], address = []\<rparr>"

definition example_itinerary :: "ScheduleItem list" where
  "example_itinerary =
     [item_of 1 tour_label [97], item_of 2 farm_label [102], item_of 3 farm_label [102],
      item_of 4 tour_label [98], item_of 4 tour_label [99], item_of 4 tour_label [98]]"

section \<open>Preference scoring: score_and_rank_attractions\<close>

text \<open>
  The Python of \<^verbatim>\<open>app/utils/attraction_scoring.py\<close>, as the implementation notes give it.
  A Python string is a sequence of code points. An attraction is a dictionary read with
  \<^verbatim>\<open>.get(key, '')\<close>; the two keys the scorer reads are fields here, absent when the
  key is missing, and the other keys are the extension of the record. The helpers
  \<^verbatim>\<open>parse_keywords\<close> and \<^verbatim>\<open>keywords_match\<close> are not part of the notes: they are
  parameters of the model.
\<close>

type_synonym pystring = "nat list"

record attraction =
  travel_style_keywords :: "pystring option"
  landscape_keywords :: "pystring option"

definition get_or_empty :: "pystring option \<Rightarrow> pystring" where
  \<comment> \<open>\<^verbatim>\<open>attraction.get(key, '')\<close>\<close>
  "get_or_empty v = (case v of None \<Rightarrow> [] | Some s \<Rightarrow> s)"

record 'a AttractionScore =
  attraction :: "'a attraction_scheme"
  score :: int

definition attraction_score ::
  "(pystring \<Rightarrow> pystring list) \<Rightarrow> (pystring \<Rightarrow> pystring \<Rightarrow> bool)
     \<Rightarrow> pystring list \<Rightarrow> pystring list \<Rightarrow> 'a attraction_scheme \<Rightarrow> int" where
  \<comment> \<open>the body of the loop over \<^verbatim>\<open>attractions\<close>\<close>
  "attraction_score parse_keywords keywords_match user_travel_styles user_landscapes a =
     (let attr_styles = parse_keywords (get_or_empty (travel_style_keywords a));
          matches = length (filter
            (\<lambda>style. list_ex (\<lambda>attr_style. keywords_match style attr_style) attr_styles)
            user_travel_styles);
          score0 = 0 + int matches * 2
      in if user_landscapes \<noteq> [] then
           (let attr_landscapes = parse_keywords (get_or_empty (landscape_keywords a));
                landscape_match = list_ex
                  (\<lambda>landscape. list_ex (\<lambda>attr_land. keywords_match landscape attr_land)
                     attr_landscapes)
                  user_landscapes
            in if landscape_match then score0 + 1 else score0)
         else score0)"

definition sorted_reverse :: "('a \<Rightarrow> int) \<Rightarrow> 'a list \<Rightarrow> 'a list" where
  \<comment> \<open>\<^verbatim>\<open>sorted(xs, key=key, reverse=True)\<close>: Python reverses the list, sorts it with a
      stable sort and reverses the result, so that equal keys keep their order\<close>
  "sorted_reverse key xs = rev (sort_key key (rev xs))"

definition score_all ::
  "(pystring \<Rightarrow> pystring list) \<Rightarrow> (pystring \<Rightarrow> pystring \<Rightarrow> bool)
     \<Rightarrow> 'a attraction_scheme list \<Rightarrow> pystring list \<Rightarrow> pystring list
     \<Rightarrow> 'a AttractionScore list" where
  \<comment> \<open>the list \<^verbatim>\<open>scored\<close> when the loop ends\<close>
  "score_all parse_keywords keywords_match attractions user_travel_styles user_landscapes =
     map (\<lambda>a. \<lparr>attraction = a,
                score = attraction_score parse_keywords keywords_match
                          user_travel_styles user_landscapes a\<rparr>) attractions"

definition score_and_rank_attractions ::
  "(pystring \<Rightarrow> pystring list) \<Rightarrow> (pystring \<Rightarrow> pystring \<Rightarrow> bool)
     \<Rightarrow> 'a attraction_scheme list \<Rightarrow> pystring list \<Rightarrow> pystring list
     \<Rightarrow> 'a AttractionScore list" where
  "score_and_rank_attractions parse_keywords keywords_match attractions
       user_travel_styles user_landscapes =
     sorted_reverse score
       (score_all parse_keywords keywords_match attractions user_travel_styles user_landscapes)"

text \<open>
  The score in the words of the specification: twice the number of the candidate's
  travel-style tags that match a travel-style tag of the user, plus one when a landscape
  tag of the candidate matches a landscape tag of the user.
\<close>

definition claimed_score ::
  "(pystring \<Rightarrow> pystring list) \<Rightarrow> (pystring \<Rightarrow> pystring \<Rightarrow> bool)
     \<Rightarrow> pystring list \<Rightarrow> pystring list \<Rightarrow> 'a attraction_scheme \<Rightarrow> int" where
  "claimed_score parse_keywords keywords_match user_travel_styles user_landscapes a =
     2 * int (length (filter
            (\<lambda>attr_style. list_ex (\<lambda>style. keywords_match style attr_style) user_travel_styles)
            (parse_keywords (get_or_empty (travel_style_keywords a))))) +
     (if list_ex (\<lambda>attr_land. list_ex (\<lambda>landscape. keywords_match landscape attr_land)
                    user_landscapes)
           (parse_keywords (get_or_empty (landscape_keywords a)))
      then 1 else 0)"

text \<open>
  Stand-ins for the two helpers, for the examples only: keywords separated by commas,
  and a match that is equality or a listed synonym ("healing" is matched by "rest" and by
  "relax").
\<close>

fun split_on :: "nat \<Rightarrow> pystring \<Rightarrow> pystring list" where
  "split_on c [] = [[]]"
| "split_on c (x # xs) =
     (if x = c then [] # split_on c xs
      else case split_on c xs of [] \<Rightarrow> [[x]] | w # ws \<Rightarrow> (x # w) # ws)"

definition example_parse :: "pystring \<Rightarrow> pystring list" where
  "example_parse s = split_on 44 s"

definition word_healing :: pystring where "word_healing = [104, 101, 97, 108, 105, 110, 103]"
definition word_rest :: pystring where "word_rest = [114, 101, 115, 116]"
definition word_relax :: pystring where "word_relax = [114, 101, 108, 97, 120]"
definition word_sea :: pystring where "word_sea = [115, 101, 97]"

definition example_match :: "pystring \<Rightarrow> pystring \<Rightarrow> bool" where
  "example_match s t =
     (s = t \<or> (s = word_healing \<and> (t = word_rest \<or> t = word_relax)))"

definition example_attraction :: "pystring \<Rightarrow> pystring \<Rightarrow> attraction" where
  "example_attraction styles landscapes =
     \<lparr>travel_style_keywords = Some styles, landscape_keywords = Some landscapes\<rparr>"

definition two_synonyms_attraction :: attraction where
  \<comment> \<open>travel styles "rest,relax", landscape "sea"\<close>
  "two_synonyms_attraction = example_attraction (word_rest @ 44 # word_relax) word_sea"

definition example_attractions :: "attraction list" where
  "example_attractions =
     [example_attraction word_sea word_rest,
      two_synonyms_attraction,
      example_attraction word_healing word_rest,
      example_attraction word_rest word_rest,
      example_attraction word_rest word_sea]"

definition example_ranked :: "unit AttractionScore list" where
  "example_ranked =
     [\<lparr>attraction = two_synonyms_attraction, score = 3\<rparr>,
      \<lparr>attraction = example_attraction word_rest word_sea, score = 3\<rparr>,
      \<lparr>attraction = example_attraction word_healing word_rest, score = 2\<rparr>,
      \<lparr>attraction = example_attraction word_rest word_rest, score = 2\<rparr>,
      \<lparr>attraction = example_attraction word_sea word_rest, score = 0\<rparr>]"

section \<open>Selections and schedule generation: generateFromSelections\<close>

text \<open>
  \<^verbatim>\<open>STATE.selections\<close> is \<^verbatim>\<open>{farm: null, tours: []}\<close> at first: one slot for the farm
  card and a list of tour cards. A card is \<^verbatim>\<open>{kind, id, title, location, img, raw}\<close>;
  \<^verbatim>\<open>raw\<close> is the record of the engine the card was made from. The payload sends
  \<^verbatim>\<open>t.raw || t\<close>: the raw record when the card has one, the card itself otherwise.
\<close>

record 'r card =
  card_id :: jsstring
  title :: jsstring
  raw :: "'r option"

record 'r selections =
  farm :: "'r card option"
  tours :: "'r card list option"

datatype 'r selected = Raw 'r | Card "'r card"

definition raw_or_card :: "'r card \<Rightarrow> 'r selected" where
  \<comment> \<open>\<^verbatim>\<open>t.raw || t\<close>\<close>
  "raw_or_card t = (case raw t of Some r \<Rightarrow> Raw r | None \<Rightarrow> Card t)"

text \<open>
  The argument of \<^verbatim>\<open>createScheduleWithUser\<close>, which goes to the engine as it is. Its
  farm may be undefined: the type of the payload does not exclude it.
\<close>

record 'r schedule_request =
  natural_request :: jsstring
  selected_farm :: "'r selected option"
  selected_tours :: "'r selected list"

datatype error =
  NoFarmSelectedError
  | FeedbackTargetInvalidError

definition generateFromSelections ::
  "'r selections \<Rightarrow> jsstring \<Rightarrow> error + 'r schedule_request" where
  \<comment> \<open>the second argument is the trimmed text of the chat input; the alert "select a
      farm card first" and the return before any request is the error; otherwise the
      result is the request that is sent\<close>
  "generateFromSelections sel chat_input =
     (if farm sel = None then Inl NoFarmSelectedError
      else Inr \<lparr>natural_request = chat_input,
                selected_farm = map_option raw_or_card (farm sel),
                selected_tours =
                  map raw_or_card (case tours sel of None \<Rightarrow> [] | Some ts \<Rightarrow> ts)\<rparr>)"

definition make_schedule_disabled :: "'r selections \<Rightarrow> bool" where
  \<comment> \<open>\<^verbatim>\<open>btn.disabled = !STATE.selections.farm\<close> in syncCardActiveState\<close>
  "make_schedule_disabled sel = (farm sel = None)"

text \<open>Selections for the examples: none, and one farm with two tours.\<close>

definition no_selection :: "nat selections" where
  "no_selection = \<lparr>farm = None, tours = Some []\<rparr>"

definition example_selection :: "nat selections" where
  "example_selection =
     \<lparr>farm = Some \<lparr>card_id = [102], title = [70], raw = Some 7\<rparr>,
      tours = Some [\<lparr>card_id = [97], title = [65], raw = Some 1\<rparr>,
                    \<lparr>card_id = [98], title = [66], raw = None\<rparr>]\<rparr>"

section \<open>The calls to the engine: callEngine, createScheduleWithUser, sendScheduleFeedback\<close>

text \<open>
  The script declares \<^verbatim>\<open>callEngine\<close> twice. Function declarations of one script share
  a scope and the later one replaces the earlier, so the declaration in force is the
  second: it catches every failure of the request and returns \<^verbatim>\<open>mockPlan(payload)\<close>
  instead. The first declaration, which throws on a failure, is never run. The
  configuration is taken as loaded.

  An object of the engine is read through the properties the client looks at; a property
  that is missing is \<open>None\<close>.
\<close>

record mock_entry = timeline_record +
  title_entry :: jsstring
  location_entry :: jsstring
  desc_entry :: jsstring
  icon_entry :: jsstring

record 'g bubble_schedule =
  grouped_schedule :: "'g list option"
  calendar_events :: "calendar option"

record 'g schedule_object =
  sched_itinerary_id :: "jsstring option"
  sched_itinerary :: "ScheduleItem list option"
  sched_bubble_schedule :: "'g bubble_schedule option"
  sched_timeline :: "mock_entry list option"
  sched_calendar :: "calendar option"
  suggestions :: "jsstring list option"

text \<open>
  The value \<^verbatim>\<open>data\<close> that \<^verbatim>\<open>callEngine\<close> returns: its property \<^verbatim>\<open>data.data\<close>, and the
  properties of \<^verbatim>\<open>data\<close> itself. The JSON value may be null.
\<close>

record 'g engine_data =
  data_data :: "'g schedule_object option"
  data_self :: "'g schedule_object"

datatype 'a engine_response =
  NotOk nat
  | Threw
  | Answer 'a

definition empty_object :: "'g schedule_object" where
  \<comment> \<open>\<^verbatim>\<open>{}\<close>\<close>
  "empty_object =
     \<lparr>sched_itinerary_id = None, sched_itinerary = None, sched_bubble_schedule = None,
      sched_timeline = None, sched_calendar = None, suggestions = None\<rparr>"

definition mock_timeline :: "jsstring \<Rightarrow> mock_entry list" where
  \<comment> \<open>the argument is the date two days from now, as \<^verbatim>\<open>YYYY-MM-DD\<close>\<close>
  "mock_timeline mock_day =
     [\<lparr>datetime = Some (mock_day @ [84, 48, 56, 58, 48, 48, 58, 48, 48]),
       title_entry = [49324, 44284, 32, 49688, 54869, 32, 46037, 44592],
       location_entry = [51204, 48513, 32, 44608, 51228, 49884, 32, 48393, 45224, 47732],
       desc_entry = [45453, 51109, 32, 46020, 50864, 48120],
       icon_entry = [55356, 57166]\<rparr>,
      \<lparr>datetime = Some (mock_day @ [84, 49, 50, 58, 48, 48, 58, 48, 48]),
       title_entry = [49884, 51109, 32, 53804, 50612, 32, 38, 32, 51216, 49900],
       location_entry = [51204, 51452, 32, 45224, 48512, 49884, 51109],
       desc_entry = [52860, 44397, 49688, 32, 52628, 52380],
       icon_entry = [55356, 57180]\<rparr>,
      \<lparr>datetime = Some (mock_day @ [84, 49, 53, 58, 48, 48, 58, 48, 48]),
       title_entry = [45236, 51109, 49328, 32, 49328, 52293],
       location_entry = [51221, 51021, 49884],
       desc_entry = [55184, 47553, 32, 53944, 47112, 51068],
       icon_entry = [9968, 65039]\<rparr>]"

definition mock_object :: "jsstring \<Rightarrow> 'g schedule_object" where
  "mock_object mock_day =
     \<lparr>sched_itinerary_id = None, sched_itinerary = None, sched_bubble_schedule = None,
      sched_timeline = Some (mock_timeline mock_day), sched_calendar = None,
      suggestions = Some [[55184, 47553, 32, 53580, 47560, 32, 50668, 54665],
                          [45453, 52492, 32, 52404, 54744],
                          [49324, 51652, 32, 49828, 54047]]\<rparr>"

definition mockPlan :: "jsstring \<Rightarrow> 'g engine_data" where
  \<comment> \<open>the payload is not read\<close>
  "mockPlan mock_day = \<lparr>data_data = None, data_self = mock_object mock_day\<rparr>"

definition callEngine ::
  "jsstring \<Rightarrow> ('b \<Rightarrow> 'g engine_data option engine_response) \<Rightarrow> 'b
     \<Rightarrow> 'g engine_data option" where
  \<comment> \<open>the declaration in force: \<^verbatim>\<open>try { ... if (!res.ok) throw ...; return await res.json() }
      catch (e) { return mockPlan(payload) }\<close>; the engine is a function of the body posted\<close>
  "callEngine mock_day engine body =
     (case engine body of
        Answer data \<Rightarrow> data
      | NotOk status \<Rightarrow> Some (mockPlan mock_day)
      | Threw \<Rightarrow> Some (mockPlan mock_day))"

definition data_or_self :: "'g engine_data option \<Rightarrow> 'g schedule_object" where
  \<comment> \<open>\<^verbatim>\<open>data?.data || data || {}\<close>\<close>
  "data_or_self data =
     (case data of
        None \<Rightarrow> empty_object
      | Some d \<Rightarrow> (case data_data d of Some inner \<Rightarrow> inner | None \<Rightarrow> data_self d))"

definition truthy :: "jsstring option \<Rightarrow> bool" where
  "truthy s = (case s of None \<Rightarrow> False | Some v \<Rightarrow> v \<noteq> [])"

text \<open>
  \<^verbatim>\<open>STATE\<close>, as far as the two functions write it. \<^verbatim>\<open>STATE.timeline\<close> receives the
  grouped schedule, the itinerary or a timeline, so its entries are of three kinds.
\<close>

datatype 'g timeline_item =
  GroupedEntry 'g
  | ItineraryItem ScheduleItem
  | TimelineEntry mock_entry

record 'g STATE =
  user_id :: "jsstring option"
  last_itinerary_id :: "jsstring option"
  last_schedule :: "'g schedule_object option"
  timeline :: "'g timeline_item list"
  calendar :: calendar
  chatStage :: jsstring

definition store_schedule :: "'g STATE \<Rightarrow> 'g schedule_object \<Rightarrow> 'g STATE" where
  \<comment> \<open>the lines after the call, the same in createScheduleWithUser and in
      sendScheduleFeedback: \<^verbatim>\<open>if (sched?.itinerary_id) { ... } else { ... }\<close>\<close>
  "store_schedule st sched =
     (if truthy (sched_itinerary_id sched) then
        st\<lparr>last_itinerary_id := sched_itinerary_id sched,
           last_schedule := Some sched,
           timeline :=
             (case (case sched_bubble_schedule sched of
                      None \<Rightarrow> None | Some b \<Rightarrow> grouped_schedule b) of
                Some groups \<Rightarrow> map GroupedEntry groups
              | None \<Rightarrow>
                  (case sched_itinerary sched of
                     Some its \<Rightarrow> map ItineraryItem its
                   | None \<Rightarrow> [])),
           calendar :=
             (case (case sched_bubble_schedule sched of
                      None \<Rightarrow> None | Some b \<Rightarrow> calendar_events b) of
                Some events \<Rightarrow> events
              | None \<Rightarrow> [])\<rparr>
      else
        st\<lparr>last_schedule := Some sched,
           timeline :=
             (case sched_timeline sched of
                Some entries \<Rightarrow> map TimelineEntry entries
              | None \<Rightarrow> []),
           calendar := (case sched_calendar sched of Some c \<Rightarrow> c | None \<Rightarrow> [])\<rparr>)"

text \<open>
  Both functions first make sure of a user id. \<^verbatim>\<open>sendOnboardingAndGetUserId\<close> either
  throws an Error (its message is the left value) or returns with the user id set; it is
  a parameter.
\<close>

definition ensure_user_id ::
  "('g STATE \<Rightarrow> jsstring + 'g STATE) \<Rightarrow> 'g STATE \<Rightarrow> jsstring + 'g STATE" where
  \<comment> \<open>\<^verbatim>\<open>if (!STATE.user_id) await sendOnboardingAndGetUserId()\<close>\<close>
  "ensure_user_id sendOnboardingAndGetUserId st =
     (if \<not> truthy (user_id st) then sendOnboardingAndGetUserId st else Inr st)"

definition sendScheduleFeedback ::
  "('g STATE \<Rightarrow> jsstring + 'g STATE) \<Rightarrow> jsstring
     \<Rightarrow> (jsstring option \<times> jsstring \<Rightarrow> 'g engine_data option engine_response)
     \<Rightarrow> 'g STATE \<Rightarrow> jsstring \<Rightarrow> (jsstring + 'g schedule_object) \<times> 'g STATE" where
  \<comment> \<open>the result (an Error thrown, or the value returned) and \<^verbatim>\<open>STATE\<close> afterwards; the
      body posted is \<^verbatim>\<open>{user_id, feedback}\<close>\<close>
  "sendScheduleFeedback sendOnboardingAndGetUserId mock_day engine st feedback =
     (case ensure_user_id sendOnboardingAndGetUserId st of
        Inl e \<Rightarrow> (Inl e, st)
      | Inr st1 \<Rightarrow>
          let body = (user_id st1, feedback);
              data = callEngine mock_day engine body;
              sched = data_or_self data
          in (Inr sched, store_schedule st1 sched))"

text \<open>
  What \<^verbatim>\<open>handleScheduleFeedback\<close> then shows: after a return the message "revised as
  requested" and the table of \<^verbatim>\<open>renderScheduleTable\<close>, which is the notice "no schedule
  was created" for an empty itinerary; after an Error the message that the revision
  failed.
\<close>

datatype table_view =
  ScheduleTable "schedule_group list"
  | NotCreatedNotice

definition renderScheduleTable :: "'g schedule_object \<Rightarrow> table_view" where
  "renderScheduleTable sched =
     (let its = (case sched_itinerary sched of None \<Rightarrow> [] | Some its \<Rightarrow> its)
      in if its = [] then NotCreatedNotice else ScheduleTable (groupedSchedule its))"

datatype feedback_shown =
  RevisedAsRequested table_view
  | RevisionFailed

definition handleScheduleFeedback ::
  "('g STATE \<Rightarrow> jsstring + 'g STATE) \<Rightarrow> jsstring
     \<Rightarrow> (jsstring option \<times> jsstring \<Rightarrow> 'g engine_data option engine_response)
     \<Rightarrow> 'g STATE \<Rightarrow> jsstring \<Rightarrow> feedback_shown \<times> 'g STATE" where
  "handleScheduleFeedback sendOnboardingAndGetUserId mock_day engine st feedback =
     (case sendScheduleFeedback sendOnboardingAndGetUserId mock_day engine st feedback of
        (Inr sched, st') \<Rightarrow> (RevisedAsRequested (renderScheduleTable sched), st')
      | (Inl e, st') \<Rightarrow> (RevisionFailed, st'))"




definition table_stage :: jsstring where
  \<comment> \<open>"table"\<close>
  "table_stage = [116, 97, 98, 108, 101]"






text \<open>
  States and engines for the examples: the user is known and the itinerary of the
  examples is stored; no farm card is chosen, one tour card is; the engine refuses with
  status 400.
\<close>

definition example_schedule_object :: "nat schedule_object" where
  "example_schedule_object =
     \<lparr>sched_itinerary_id = Some [115, 49], sched_itinerary = Some example_itinerary,
      sched_bubble_schedule = None, sched_timeline = None, sched_calendar = None,
      suggestions = None\<rparr>"

definition example_state :: "nat STATE" where
  "example_state =
     \<lparr>user_id = Some [117, 49], last_itinerary_id = Some [115, 49],
      last_schedule = Some example_schedule_object,
      timeline = map ItineraryItem example_itinerary,
      calendar = [], chatStage = table_stage\<rparr>"


definition refusing_engine :: "'b \<Rightarrow> nat engine_data option engine_response" where
  "refusing_engine body = NotOk 400"

definition no_onboarding :: "nat STATE \<Rightarrow> jsstring + nat STATE" where
  "no_onboarding st = Inr st"

definition example_mock_day :: jsstring where
  "example_mock_day = example_date 3"

section \<open>Revision from feedback\<close>

text \<open>
  Modelled from the spec: \<^verbatim>\<open>revise_schedule\<close> runs in the engine and is not among the
  sources; the front end only posts the feedback and stores the answer. The
  specification gives: the feedback is parsed for a day reference; when the referenced
  day is a tour day, the top-ranked unused alternative replaces that day's items and
  nothing else changes, the id is kept and the summary is recomputed; when the
  referenced day does not exist or is a farm day, the revision fails with
  FeedbackTargetInvalidError.
  The parser of the day reference and the choice of the alternative are parameters. The
  specification gives no outcome for a feedback without a day reference, nor for a tour
  day with no alternative left: the model has no result there (\<open>None\<close>).
\<close>

record summary =
  farm_days_count :: nat
  tour_days_count :: nat
  region :: pystring

record Itinerary =
  itinerary_id :: pystring
  total_days :: int
  itinerary :: "ScheduleItem list"
  summary :: summary

definition is_farm :: "ScheduleItem \<Rightarrow> bool" where
  \<comment> \<open>Modelled from the spec: a farm-type ScheduleItem\<close>
  "is_farm item = (schedule_type item = farm_label)"

definition summarize :: "ScheduleItem list \<Rightarrow> pystring \<Rightarrow> summary" where
  \<comment> \<open>Modelled from the spec: the summary (farm days, tour days, region) of the data model\<close>
  "summarize its r =
     \<lparr>farm_days_count = length (remdups (map day (filter is_farm its))),
      tour_days_count = length (remdups (map day (filter (\<lambda>i. \<not> is_farm i) its))),
      region = r\<rparr>"

definition day_exists :: "ScheduleItem list \<Rightarrow> int \<Rightarrow> bool" where
  \<comment> \<open>Modelled from the spec: the referenced day exists in the itinerary\<close>
  "day_exists its d = list_ex (\<lambda>i. day i = d) its"

definition farm_day :: "ScheduleItem list \<Rightarrow> int \<Rightarrow> bool" where
  \<comment> \<open>Modelled from the spec: the referenced day is a farm day\<close>
  "farm_day its d = list_ex (\<lambda>i. day i = d \<and> is_farm i) its"

definition replace_day :: "int \<Rightarrow> ScheduleItem list \<Rightarrow> ScheduleItem list \<Rightarrow> ScheduleItem list" where
  \<comment> \<open>Modelled from the spec: the new content stands where the day's first item stood; the day's items go\<close>
  "replace_day d new its =
     takeWhile (\<lambda>i. day i \<noteq> d) its @ new @
     filter (\<lambda>i. day i \<noteq> d) (dropWhile (\<lambda>i. day i \<noteq> d) its)"

definition as_tour_of_day :: "int \<Rightarrow> ScheduleItem \<Rightarrow> ScheduleItem" where
  \<comment> \<open>Modelled from the spec: the alternative becomes a tour item of the referenced day\<close>
  "as_tour_of_day d alt = alt\<lparr>day := d, schedule_type := tour_label\<rparr>"

definition revise ::
  "(pystring \<Rightarrow> int option) \<Rightarrow> (ScheduleItem list \<Rightarrow> int \<Rightarrow> ScheduleItem option)
     \<Rightarrow> Itinerary \<Rightarrow> pystring \<Rightarrow> (error + Itinerary) option" where
  \<comment> \<open>Modelled from the spec: the reviser of section 4.5, which is not among the sources\<close>
  "revise day_reference top_alternative it feedback =
     (case day_reference feedback of
        None \<Rightarrow> None
      | Some d \<Rightarrow>
          if \<not> day_exists (itinerary it) d \<or> farm_day (itinerary it) d
          then Some (Inl FeedbackTargetInvalidError)
          else (case top_alternative (itinerary it) d of
                  None \<Rightarrow> None
                | Some alt \<Rightarrow>
                    let items' = replace_day d [as_tour_of_day d alt] (itinerary it)
                    in Some (Inr (it\<lparr>itinerary := items',
                                     summary := summarize items' (region (summary it))\<rparr>))))"

text \<open>
  Stand-ins for the two parameters, for the examples: the feedback names the day by
  its digit ("1" for the first day), and the alternative is a fixed attraction.
\<close>

definition example_day_reference :: "pystring \<Rightarrow> int option" where
  "example_day_reference feedback =
     (case feedback of [c] \<Rightarrow> if 49 \<le> c \<and> c \<le> 57 then Some (int c - 48) else None
      | _ \<Rightarrow> None)"

definition example_alternative :: "ScheduleItem list \<Rightarrow> int \<Rightarrow> ScheduleItem option" where
  "example_alternative its d =
     Some \<lparr>day = 0, date = [], schedule_type = [], name = [122],
           start_time = [], address = []\<rparr>"

definition example_stored :: Itinerary where
  "example_stored =
     \<lparr>itinerary_id = [115, 49], total_days = 4, itinerary = example_itinerary,
      summary = summarize example_itinerary [103]\<rparr>"

definition example_revised :: Itinerary where
  \<comment> \<open>the first day's tour item replaced by the alternative\<close>
  "example_revised =
     example_stored
       \<lparr>itinerary :=
          \<lparr>day = 1, date = [], schedule_type = tour_label, name = [122],
            start_time = [], address = []\<rparr> # tl example_itinerary,
        summary := \<lparr>farm_days_count = 2, tour_days_count = 2, region = [103]\<rparr>\<rparr>"

section \<open>Duration extraction\<close>

















section \<open>Proofs: the grouping pass\<close>

lemma farm_label_neq_tour_label: "farm_label \<noteq> tour_label"
  by (simp add: farm_label_def tour_label_def)

lemma no_joinable_neighbours_snoc:
  "no_joinable_neighbours (gs @ [g]) \<Longrightarrow> \<not> joinable g h
     \<Longrightarrow> no_joinable_neighbours (gs @ [g, h])"
proof (induction gs rule: no_joinable_neighbours.induct)
  case 1
  then show ?case by simp
next
  case (2 g')
  then show ?case by simp
next
  case (3 a b rest)
  then show ?case by simp
qed

lemma no_joinable_neighbours_last:
  "no_joinable_neighbours (gs @ [g]) \<Longrightarrow> group_type g' = group_type g
     \<Longrightarrow> startDay g' = startDay g \<Longrightarrow> no_joinable_neighbours (gs @ [g'])"
proof (induction gs rule: no_joinable_neighbours.induct)
  case 1
  then show ?case by simp
next
  case (2 a)
  then show ?case by (auto simp: joinable_def)
next
  case (3 a b rest)
  then show ?case by simp
qed

lemma group_ok_new_farm:
  "schedule_type item = farm_label \<Longrightarrow> group_ok (new_group farm_label item)"
  by (simp add: group_ok_def new_group_def)

lemma group_ok_new_tour:
  "schedule_type item \<noteq> farm_label \<Longrightarrow> group_ok (new_group tour_label item)"
  by (simp add: group_ok_def new_group_def farm_label_neq_tour_label [symmetric])

lemma group_ok_farm_append:
  "group_ok g \<Longrightarrow> group_type g = farm_label \<Longrightarrow> schedule_type item = farm_label
     \<Longrightarrow> group_ok (g\<lparr>endDay := day item, items := items g @ [item]\<rparr>)"
  by (simp add: group_ok_def)

lemma group_ok_tour_append:
  "group_ok g \<Longrightarrow> group_type g = tour_label \<Longrightarrow> startDay g = day item
     \<Longrightarrow> schedule_type item \<noteq> farm_label
     \<Longrightarrow> group_ok (g\<lparr>items := items g @ [item]\<rparr>)"
  by (simp add: group_ok_def farm_label_neq_tour_label [symmetric])

lemma group_inv_Some:
  "group_inv (gs, Some g) =
     (list_all group_ok gs \<and> group_ok g \<and> no_joinable_neighbours (gs @ [g]))"
  by (simp add: group_inv_def push_current_def)

lemma group_inv_None: "group_inv (gs, None) = (gs = [])"
  by (auto simp: group_inv_def push_current_def)

lemma group_step_inv_None: "group_inv (group_step ([], None) item)"
  by (simp add: group_inv_Some push_current_def group_ok_new_farm group_ok_new_tour)

lemma group_step_inv_Some:
  assumes "group_inv (gs, Some g)"
  shows "group_inv (group_step (gs, Some g) item)"
proof -
  from assms have ok: "list_all group_ok gs" "group_ok g"
    and nj: "no_joinable_neighbours (gs @ [g])"
    by (simp_all add: group_inv_Some)
  show ?thesis
  proof (cases "schedule_type item = farm_label")
    case farm: True
    show ?thesis
    proof (cases "group_type g = farm_label")
      case True
      let ?g' = "g\<lparr>endDay := day item, items := items g @ [item]\<rparr>"
      have "group_ok ?g'"
        using ok(2) True farm by (rule group_ok_farm_append)
      moreover from nj have "no_joinable_neighbours (gs @ [?g'])"
        by (rule no_joinable_neighbours_last) simp_all
      ultimately have "group_inv (gs, Some ?g')"
        using ok(1) by (simp only: group_inv_Some simp_thms)
      with farm True show ?thesis by simp
    next
      case False
      let ?h = "new_group farm_label item"
      have "group_ok ?h" using farm by (rule group_ok_new_farm)
      moreover have "\<not> joinable g ?h"
        using False by (simp add: joinable_def new_group_def)
      with nj have "no_joinable_neighbours (gs @ [g, ?h])"
        by (rule no_joinable_neighbours_snoc)
      ultimately have "group_inv (gs @ [g], Some ?h)"
        using ok by (simp add: group_inv_Some)
      with farm False show ?thesis by (simp add: push_current_def)
    qed
  next
    case tour: False
    show ?thesis
    proof (cases "group_type g = tour_label \<and> startDay g = day item")
      case True
      let ?g' = "g\<lparr>items := items g @ [item]\<rparr>"
      from True have t: "group_type g = tour_label" and d: "startDay g = day item"
        by simp_all
      have "group_ok ?g'"
        using ok(2) t d tour by (rule group_ok_tour_append)
      moreover from nj have "no_joinable_neighbours (gs @ [?g'])"
        by (rule no_joinable_neighbours_last) simp_all
      ultimately have "group_inv (gs, Some ?g')"
        using ok(1) by (simp only: group_inv_Some simp_thms)
      with tour True show ?thesis by simp
    next
      case False
      let ?h = "new_group tour_label item"
      have "group_ok ?h" using tour by (rule group_ok_new_tour)
      moreover have "\<not> joinable g ?h"
        using False by (auto simp: joinable_def new_group_def farm_label_neq_tour_label [symmetric])
      with nj have "no_joinable_neighbours (gs @ [g, ?h])"
        by (rule no_joinable_neighbours_snoc)
      ultimately have "group_inv (gs @ [g], Some ?h)"
        using ok by (simp add: group_inv_Some)
      with tour False show ?thesis by (auto simp: push_current_def)
    qed
  qed
qed

lemma group_step_inv: "group_inv st \<Longrightarrow> group_inv (group_step st item)"
proof (cases st)
  case (Pair gs cur)
  assume "group_inv st"
  with Pair show ?thesis
    by (cases cur) (simp_all only: group_inv_None group_step_inv_None group_step_inv_Some)
qed

lemma group_loop_inv: "group_inv st \<Longrightarrow> group_inv (group_loop its st)"
  by (induction its arbitrary: st) (simp_all add: group_step_inv)

lemma group_step_items:
  "(case group_step (gs, cur) item of (gs', cur') \<Rightarrow>
      concat (map items (push_current gs' cur'))) =
   concat (map items (push_current gs cur)) @ [item]"
  by (simp add: push_current_def new_group_def split: option.splits)

lemma group_loop_items:
  "(case group_loop its st of (gs', cur') \<Rightarrow>
      concat (map items (push_current gs' cur'))) =
   (case st of (gs, cur) \<Rightarrow> concat (map items (push_current gs cur))) @ its"
proof (induction its arbitrary: st)
  case Nil
  then show ?case by (simp split: prod.splits)
next
  case (Cons item rest)
  obtain gs cur where st: "st = (gs, cur)" by (cases st)
  obtain gs' cur' where st': "group_step (gs, cur) item = (gs', cur')"
    by (cases "group_step (gs, cur) item")
  from group_step_items [of gs cur item] st'
  have "concat (map items (push_current gs' cur')) =
        concat (map items (push_current gs cur)) @ [item]"
    by simp
  with Cons.IH [of "(gs', cur')"] st st' show ?case by simp
qed

text \<open>
  C10. The grouped view is a partition of the itinerary: the items of the groups, in
  group order, are the itinerary in its order. Every group is well formed (a farm group
  holds farm items only; every item of a tour group is not a farm item and carries the
  day of the group), and no two neighbouring groups could have been joined: a farm item
  that follows a farm group is always in that group, and an item that is not a farm item
  is in the group before it exactly when that is a tour group of the item's day.
\<close>

theorem groupedSchedule_partition:
  "concat (map items (groupedSchedule its)) = its \<and>
   list_all group_ok (groupedSchedule its) \<and>
   no_joinable_neighbours (groupedSchedule its)"
proof -
  have inv0: "group_inv ([], None)"
    by (simp add: group_inv_def push_current_def)
  obtain gs cur where res: "group_loop its ([], None) = (gs, cur)"
    by (cases "group_loop its ([], None)")
  from group_loop_inv [OF inv0, of its] res
  have "list_all group_ok (push_current gs cur)"
    and "no_joinable_neighbours (push_current gs cur)"
    by (simp_all add: group_inv_def)
  moreover from group_loop_items [of its "([], None)"] res
  have "concat (map items (push_current gs cur)) = its"
    by (simp add: push_current_def)
  ultimately show ?thesis
    using res by (simp add: groupedSchedule_def)
qed

theorem groupedSchedule_partition_witness:
  "concat (map items (groupedSchedule example_itinerary)) = example_itinerary \<and>
   list_all group_ok (groupedSchedule example_itinerary) \<and>
   no_joinable_neighbours (groupedSchedule example_itinerary) \<and>
   map (\<lambda>g. (startDay g, endDay g, length (items g))) (groupedSchedule example_itinerary)
     = [(1, 1, 1), (2, 3, 2), (4, 4, 3)]"
proof -
  have "map (\<lambda>g. (startDay g, endDay g, length (items g))) (groupedSchedule example_itinerary)
     = [(1, 1, 1), (2, 3, 2), (4, 4, 3)]"
    by (simp add: groupedSchedule_def example_itinerary_def item_of_def push_current_def
        new_group_def farm_label_def tour_label_def)
  with groupedSchedule_partition [of example_itinerary] show ?thesis by simp
qed

section \<open>Proofs: calendar materialization\<close>

lemma lookup_or_update:
  "lookup_or dflt (AList.update k v obj) k' = (if k' = k then v else lookup_or dflt obj k')"
  by (simp add: lookup_or_def update_conv')

lemma lookup_or_nonempty:
  "lookup_or [] obj k \<noteq> [] \<Longrightarrow> map_of obj k = Some (lookup_or [] obj k)"
  by (simp add: lookup_or_def split: option.splits)

lemma add_item_covered_id:
  assumes "covered cal item"
  shows "add_item cal item = cal"
proof (cases "date item \<noteq> [] \<and> name item \<noteq> []")
  case False
  then show ?thesis by (auto simp: add_item_def)
next
  case True
  let ?ym = "slice 0 7 (date item)" and ?d = "slice 8 10 (date item)"
  let ?month = "lookup_or [] cal ?ym"
  let ?events = "lookup_or [] ?month ?d"
  from assms True have ex: "list_ex (same_event item) ?events"
    by (simp add: covered_def)
  then have ne: "?events \<noteq> []" by auto
  then have m: "map_of ?month ?d = Some ?events" by (rule lookup_or_nonempty)
  then have "?month \<noteq> []" by auto
  then have c: "map_of cal ?ym = Some ?month" by (rule lookup_or_nonempty)
  from m have "AList.update ?d ?events ?month = ?month" by (rule update_triv)
  moreover from c have "AList.update ?ym ?month cal = cal" by (rule update_triv)
  ultimately show ?thesis
    using True ex by (simp add: add_item_def Let_def)
qed

lemma add_item_covers: "covered (add_item cal item) item"
  by (simp add: covered_def add_item_def Let_def lookup_or_update same_event_def event_of_def)

lemma add_item_keeps_covered:
  assumes "covered cal i"
  shows "covered (add_item cal j) i"
proof (cases "date j \<noteq> [] \<and> name j \<noteq> []")
  case False
  with assms show ?thesis by (auto simp: add_item_def)
next
  case True
  show ?thesis
    using assms True
    by (auto simp: covered_def add_item_def Let_def lookup_or_update)
qed

lemma fold_add_item_keeps_covered:
  "covered cal i \<Longrightarrow> covered (fold (\<lambda>item c. add_item c item) its cal) i"
  by (induction its arbitrary: cal) (simp_all add: add_item_keeps_covered)

lemma fold_add_item_covers:
  "i \<in> set its \<Longrightarrow> covered (fold (\<lambda>item c. add_item c item) its cal) i"
proof (induction its arbitrary: cal)
  case Nil
  then show ?case by simp
next
  case (Cons a its)
  show ?case
  proof (cases "i = a")
    case True
    have "covered (add_item cal a) a" by (rule add_item_covers)
    then show ?thesis using True by (simp add: fold_add_item_keeps_covered)
  next
    case False
    with Cons show ?thesis by simp
  qed
qed

lemma fold_add_item_covered_id:
  "\<forall>i \<in> set its. covered cal i \<Longrightarrow> fold (\<lambda>item c. add_item c item) its cal = cal"
  by (induction its) (simp_all add: add_item_covered_id)

lemma list_all_update:
  "list_all P al \<Longrightarrow> P (k, v) \<Longrightarrow> list_all P (AList.update k v al)"
  by (induction al) auto

lemma list_all_lookup:
  "list_all P al \<Longrightarrow> map_of al k = Some v \<Longrightarrow> P (k, v)"
  by (induction al) (auto split: if_splits)

lemma distinct_add_event:
  assumes "distinct (map event_key events)" "\<not> list_ex (same_event item) events"
  shows "distinct (map event_key (events @ [event_of item]))"
proof -
  have "event_key (event_of item) \<notin> set (map event_key events)"
    using assms(2) by (auto simp: list_ex_iff same_event_def event_key_def event_of_def)
  with assms(1) show ?thesis by simp
qed

lemma add_item_no_duplicates:
  assumes "no_duplicates cal"
  shows "no_duplicates (add_item cal item)"
proof (cases "date item \<noteq> [] \<and> name item \<noteq> []")
  case False
  with assms show ?thesis by (auto simp: add_item_def)
next
  case True
  let ?ym = "slice 0 7 (date item)" and ?d = "slice 8 10 (date item)"
  let ?month = "lookup_or [] cal ?ym"
  let ?events = "lookup_or [] ?month ?d"
  let ?events' = "if \<not> list_ex (same_event item) ?events then ?events @ [event_of item] else ?events"
  let ?P = "\<lambda>(d, events). distinct (map event_key events)"
  have pm: "list_all ?P ?month"
  proof (cases "map_of cal ?ym")
    case None
    then show ?thesis by (simp add: lookup_or_def)
  next
    case (Some m)
    with assms have "list_all ?P m"
      unfolding no_duplicates_def by (auto dest: list_all_lookup)
    with Some show ?thesis by (simp add: lookup_or_def)
  qed
  have pe: "distinct (map event_key ?events)"
  proof (cases "map_of ?month ?d")
    case None
    then show ?thesis by (simp add: lookup_or_def)
  next
    case (Some e)
    with pm have "distinct (map event_key e)" by (auto dest: list_all_lookup)
    with Some show ?thesis by (simp add: lookup_or_def)
  qed
  then have "distinct (map event_key ?events')"
    by (simp add: distinct_add_event del: map_append)
  then have "?P (?d, ?events')" by simp
  with pm have "list_all ?P (AList.update ?d ?events' ?month)" by (rule list_all_update)
  with assms have "no_duplicates (AList.update ?ym (AList.update ?d ?events' ?month) cal)"
    unfolding no_duplicates_def by (auto intro: list_all_update)
  with True show ?thesis by (simp add: add_item_def Let_def)
qed

lemma fold_add_item_no_duplicates:
  "no_duplicates cal \<Longrightarrow> no_duplicates (fold (\<lambda>item c. add_item c item) its cal)"
  by (induction its arbitrary: cal) (simp_all add: add_item_no_duplicates)

lemma upsertCalendarEvents_skips_itinerary:
  "list_all (\<lambda>item. datetime item = None) records
     \<Longrightarrow> upsertCalendarEvents cal (Some records) = cal"
  by (induction records arbitrary: cal)
    (simp_all add: upsertCalendarEvents_def upsert_record_def slice_def)

text \<open>
  C3. Materializing an itinerary into the calendar twice gives the calendar that
  materializing it once gives, whatever the calendar held before; and when no day key
  of the calendar holds two events of one activity and type, none does afterwards.
\<close>

theorem updateHomeCalendar_idempotent:
  "updateHomeCalendar (updateHomeCalendar cal sched) sched
     = updateHomeCalendar cal sched \<and>
   (no_duplicates cal \<longrightarrow> no_duplicates (updateHomeCalendar cal sched))"
proof (cases sched)
  case None
  then show ?thesis by (simp add: updateHomeCalendar_def)
next
  case (Some its)
  have "\<forall>i \<in> set its. covered (fold (\<lambda>item c. add_item c item) its cal) i"
    by (simp add: fold_add_item_covers)
  then have "fold (\<lambda>item c. add_item c item) its (fold (\<lambda>item c. add_item c item) its cal)
      = fold (\<lambda>item c. add_item c item) its cal"
    by (rule fold_add_item_covered_id)
  with Some show ?thesis
    by (simp add: updateHomeCalendar_def fold_add_item_no_duplicates)
qed

theorem updateHomeCalendar_idempotent_witness:
  "no_duplicates [] \<and>
   updateHomeCalendar (updateHomeCalendar [] (Some example_itinerary)) (Some example_itinerary)
     = updateHomeCalendar [] (Some example_itinerary) \<and>
   no_duplicates (updateHomeCalendar [] (Some example_itinerary)) \<and>
   map (\<lambda>(ym, month). (ym, map (\<lambda>(d, events). (d, map activity events)) month))
     (updateHomeCalendar [] (Some example_itinerary))
     = [([50, 48, 50, 53, 45, 49, 48],
         [([48, 49], [[97]]), ([48, 50], [[102]]), ([48, 51], [[102]]),
          ([48, 52], [[98], [99]])])]"
proof -
  have n: "no_duplicates []" by (simp add: no_duplicates_def)
  have "map (\<lambda>(ym, month). (ym, map (\<lambda>(d, events). (d, map activity events)) month))
     (updateHomeCalendar [] (Some example_itinerary))
     = [([50, 48, 50, 53, 45, 49, 48],
         [([48, 49], [[97]]), ([48, 50], [[102]]), ([48, 51], [[102]]),
          ([48, 52], [[98], [99]])])]"
    by (simp add: updateHomeCalendar_def example_itinerary_def item_of_def example_date_def
        add_item_def Let_def lookup_or_def slice_def same_event_def event_of_def
        farm_label_def tour_label_def)
  with n updateHomeCalendar_idempotent [of "[]" "Some example_itinerary"] show ?thesis
    by simp
qed

section \<open>Proofs: preference scoring\<close>

lemma sorted_reverse_descending: "sorted (rev (map key (sorted_reverse key xs)))"
  by (simp add: sorted_reverse_def rev_map [symmetric])

lemma sorted_reverse_mset: "mset (sorted_reverse key xs) = mset xs"
  by (simp add: sorted_reverse_def)

lemma sorted_reverse_stable:
  "filter (\<lambda>x. key x = k) (sorted_reverse key xs) = filter (\<lambda>x. key x = k) xs"
proof -
  have "filter (\<lambda>x. key x = k) (sorted_reverse key xs)
      = rev (filter (\<lambda>x. key x = k) (sort_key key (rev xs)))"
    by (simp add: sorted_reverse_def rev_filter)
  also have "\<dots> = rev (filter (\<lambda>x. key x = k) (rev xs))"
    by (simp only: sort_key_stable)
  also have "\<dots> = filter (\<lambda>x. key x = k) xs"
    by (simp add: rev_filter)
  finally show ?thesis .
qed

lemma sorted_reverse_unique:
  assumes m: "mset ys = mset xs"
    and s: "sorted (rev (map key ys))"
    and f: "\<forall>k. filter (\<lambda>x. key x = k) ys = filter (\<lambda>x. key x = k) xs"
  shows "ys = sorted_reverse key xs"
proof -
  have "sort_key key (rev xs) = rev ys"
  proof (rule properties_for_sort_key)
    show "mset (rev ys) = mset (rev xs)" using m by simp
    show "sorted (map key (rev ys))" using s by (simp add: rev_map)
    fix k
    from f have "filter (\<lambda>x. key x = key k) ys = filter (\<lambda>x. key x = key k) xs" by blast
    then have "filter (\<lambda>x. key k = key x) ys = filter (\<lambda>x. key k = key x) xs"
      by (simp add: eq_commute)
    then show "filter (\<lambda>x. key k = key x) (rev ys) = filter (\<lambda>x. key k = key x) (rev xs)"
      by (simp add: rev_filter [symmetric])
  qed
  then show ?thesis by (simp add: sorted_reverse_def)
qed

lemma map_attraction_score_all:
  "map attraction (score_all pk km attractions styles landscapes) = attractions"
  by (simp add: score_all_def comp_def)

text \<open>
  C7. The ranking is a function of its inputs, and its result is fixed by the scores and
  the input positions alone: the scores descend, the result holds the scored candidates
  and no others, candidates of equal score stand in the order of the input, and every
  list with these three properties is the result.
\<close>

theorem score_and_rank_attractions_order:
  "sorted (rev (map score (score_and_rank_attractions pk km attractions styles landscapes))) \<and>
   mset (score_and_rank_attractions pk km attractions styles landscapes)
     = mset (score_all pk km attractions styles landscapes) \<and>
   filter (\<lambda>x. score x = k) (score_and_rank_attractions pk km attractions styles landscapes)
     = filter (\<lambda>x. score x = k) (score_all pk km attractions styles landscapes) \<and>
   map attraction (score_all pk km attractions styles landscapes) = attractions \<and>
   (\<forall>ys. mset ys = mset (score_all pk km attractions styles landscapes) \<and>
         sorted (rev (map score ys)) \<and>
         (\<forall>j. filter (\<lambda>x. score x = j) ys
               = filter (\<lambda>x. score x = j) (score_all pk km attractions styles landscapes))
         \<longrightarrow> ys = score_and_rank_attractions pk km attractions styles landscapes)"
  unfolding score_and_rank_attractions_def
  using sorted_reverse_descending sorted_reverse_mset sorted_reverse_stable
    sorted_reverse_unique map_attraction_score_all
  by blast

lemma count_user_styles:
  "distinct styles \<Longrightarrow>
     length (filter (\<lambda>style. list_ex (\<lambda>attr_style. km style attr_style) tags) styles)
       = card {s \<in> set styles. \<exists>t \<in> set tags. km s t}"
proof -
  assume "distinct styles"
  then have "length (filter (\<lambda>style. list_ex (\<lambda>attr_style. km style attr_style) tags) styles)
      = card ({s. list_ex (\<lambda>t. km s t) tags} \<inter> set styles)"
    by (rule distinct_length_filter)
  also have "{s. list_ex (\<lambda>t. km s t) tags} \<inter> set styles
      = {s \<in> set styles. \<exists>t \<in> set tags. km s t}"
    by (auto simp: list_ex_iff)
  finally show ?thesis .
qed

lemma attraction_score_user_side:
  assumes "distinct styles"
  shows "attraction_score pk km styles landscapes a =
     2 * int (card {s \<in> set styles.
                \<exists>t \<in> set (pk (get_or_empty (travel_style_keywords a))). km s t}) +
     (if \<exists>l \<in> set landscapes.
           \<exists>t \<in> set (pk (get_or_empty (landscape_keywords a))). km l t
      then 1 else 0)"
proof -
  have "list_ex (\<lambda>landscape. list_ex (\<lambda>attr_land. km landscape attr_land)
            (pk (get_or_empty (landscape_keywords a)))) landscapes
      = (\<exists>l \<in> set landscapes. \<exists>t \<in> set (pk (get_or_empty (landscape_keywords a))). km l t)"
    by (simp add: list_ex_iff)
  moreover have "landscapes = [] \<Longrightarrow>
      \<not> (\<exists>l \<in> set landscapes. \<exists>t \<in> set (pk (get_or_empty (landscape_keywords a))). km l t)"
    by simp
  ultimately show ?thesis
    unfolding attraction_score_def Let_def count_user_styles [OF assms]
    by (cases "landscapes = []") simp_all
qed

text \<open>
  C6, as amended. Every candidate is in the result once, with the score: twice the number
  of the user's travel-style tags that match one of the candidate's travel-style tags
  at least, plus one when a landscape tag of the user matches a landscape tag of the
  candidate. The user's travel-style tags are a set: the list does not repeat a tag.
\<close>

theorem score_and_rank_attractions_scores:
  assumes "distinct styles"
  shows "mset (map attraction (score_and_rank_attractions pk km attractions styles landscapes))
           = mset attractions \<and>
     (\<forall>x \<in> set (score_and_rank_attractions pk km attractions styles landscapes).
        score x =
          2 * int (card {s \<in> set styles.
                     \<exists>t \<in> set (pk (get_or_empty (travel_style_keywords (attraction x)))).
                       km s t}) +
          (if \<exists>l \<in> set landscapes.
                \<exists>t \<in> set (pk (get_or_empty (landscape_keywords (attraction x)))). km l t
           then 1 else 0))"
proof
  have "mset (map attraction (score_and_rank_attractions pk km attractions styles landscapes))
      = mset (map attraction (score_all pk km attractions styles landscapes))"
    by (simp add: score_and_rank_attractions_def sorted_reverse_mset)
  then show "mset (map attraction (score_and_rank_attractions pk km attractions styles landscapes))
      = mset attractions"
    by (simp only: map_attraction_score_all)
next
  have "set (score_and_rank_attractions pk km attractions styles landscapes)
      = set (score_all pk km attractions styles landscapes)"
    by (metis score_and_rank_attractions_def sorted_reverse_mset set_mset_mset)
  moreover have "score x =
          2 * int (card {s \<in> set styles.
                     \<exists>t \<in> set (pk (get_or_empty (travel_style_keywords (attraction x)))).
                       km s t}) +
          (if \<exists>l \<in> set landscapes.
                \<exists>t \<in> set (pk (get_or_empty (landscape_keywords (attraction x)))). km l t
           then 1 else 0)"
    if "x \<in> set (score_all pk km attractions styles landscapes)" for x
  proof -
    from that obtain a where "x = \<lparr>attraction = a,
        score = attraction_score pk km styles landscapes a\<rparr>"
      by (auto simp: score_all_def)
    then have "attraction x = a" "score x = attraction_score pk km styles landscapes a"
      by simp_all
    then show ?thesis by (simp only: attraction_score_user_side [OF assms])
  qed
  ultimately show "\<forall>x \<in> set (score_and_rank_attractions pk km attractions styles landscapes).
        score x =
          2 * int (card {s \<in> set styles.
                     \<exists>t \<in> set (pk (get_or_empty (travel_style_keywords (attraction x)))).
                       km s t}) +
          (if \<exists>l \<in> set landscapes.
                \<exists>t \<in> set (pk (get_or_empty (landscape_keywords (attraction x)))). km l t
           then 1 else 0)"
    by blast
qed

lemma claimed_score_exact_match:
  assumes "distinct styles" "distinct (pk (get_or_empty (travel_style_keywords a)))"
  shows "claimed_score pk (=) styles landscapes a = attraction_score pk (=) styles landscapes a"
proof -
  let ?tags = "pk (get_or_empty (travel_style_keywords a))"
  have "length (filter (\<lambda>attr_style. list_ex (\<lambda>style. style = attr_style) styles) ?tags)
      = card ({t. list_ex (\<lambda>s. s = t) styles} \<inter> set ?tags)"
    using assms(2) by (rule distinct_length_filter)
  also have "{t. list_ex (\<lambda>s. s = t) styles} \<inter> set ?tags
      = {s \<in> set styles. \<exists>t \<in> set ?tags. s = t}"
    by (auto simp: list_ex_iff)
  finally have "length (filter (\<lambda>attr_style. list_ex (\<lambda>style. style = attr_style) styles) ?tags)
      = card {s \<in> set styles. \<exists>t \<in> set ?tags. s = t}" .
  moreover have "list_ex (\<lambda>attr_land. list_ex (\<lambda>landscape. landscape = attr_land) landscapes)
            (pk (get_or_empty (landscape_keywords a)))
      = (\<exists>l \<in> set landscapes. \<exists>t \<in> set (pk (get_or_empty (landscape_keywords a))). l = t)"
    by (auto simp: list_ex_iff)
  ultimately show ?thesis
    by (simp add: claimed_score_def attraction_score_user_side [OF assms(1)])
qed

lemma example_words_distinct:
  "word_healing \<noteq> word_rest" "word_healing \<noteq> word_relax" "word_healing \<noteq> word_sea"
  "word_rest \<noteq> word_relax" "word_rest \<noteq> word_sea" "word_relax \<noteq> word_sea"
  by (simp_all add: word_healing_def word_rest_def word_relax_def word_sea_def)

lemma example_parse_words:
  "example_parse word_healing = [word_healing]"
  "example_parse word_rest = [word_rest]"
  "example_parse word_sea = [word_sea]"
  "example_parse (word_rest @ 44 # word_relax) = [word_rest, word_relax]"
  by (simp_all add: example_parse_def word_healing_def word_rest_def word_relax_def word_sea_def)

lemma example_scores:
  "attraction_score example_parse example_match [word_healing] [word_sea]
     (example_attraction word_sea word_rest) = 0"
  "attraction_score example_parse example_match [word_healing] [word_sea]
     two_synonyms_attraction = 3"
  "attraction_score example_parse example_match [word_healing] [word_sea]
     (example_attraction word_healing word_rest) = 2"
  "attraction_score example_parse example_match [word_healing] [word_sea]
     (example_attraction word_rest word_rest) = 2"
  "attraction_score example_parse example_match [word_healing] [word_sea]
     (example_attraction word_rest word_sea) = 3"
  using example_words_distinct
  by (simp_all add: attraction_score_def two_synonyms_attraction_def example_attraction_def
      get_or_empty_def example_parse_words example_match_def
      example_words_distinct [symmetric])

text \<open>
  C6 as stated counts the candidate's tags that match. With a match that knows synonyms,
  a candidate tagged "rest,relax" has two tags that match the user's one tag "healing":
  the code counts the user's tag once and scores 2 * 1 + 1 = 3, the claim's count gives
  2 * 2 + 1 = 5.
\<close>

theorem claimed_score_counterexample:
  "map score (score_and_rank_attractions example_parse example_match
       [two_synonyms_attraction] [word_healing] [word_sea]) = [3] \<and>
   claimed_score example_parse example_match [word_healing] [word_sea]
       two_synonyms_attraction = 5"
proof
  show "map score (score_and_rank_attractions example_parse example_match
       [two_synonyms_attraction] [word_healing] [word_sea]) = [3]"
    by (simp add: score_and_rank_attractions_def sorted_reverse_def score_all_def
        example_scores)
  show "claimed_score example_parse example_match [word_healing] [word_sea]
       two_synonyms_attraction = 5"
    using example_words_distinct
    by (simp add: claimed_score_def two_synonyms_attraction_def example_attraction_def
        get_or_empty_def example_parse_words example_match_def
        example_words_distinct [symmetric])
qed

lemma example_ranking:
  "score_and_rank_attractions example_parse example_match example_attractions
       [word_healing] [word_sea] = example_ranked"
  by (simp add: score_and_rank_attractions_def sorted_reverse_def score_all_def
      example_attractions_def example_scores example_ranked_def)

theorem score_and_rank_attractions_scores_witness:
  "distinct [word_healing] \<and>
   score_and_rank_attractions example_parse example_match [two_synonyms_attraction]
       [word_healing] [word_sea]
     = [\<lparr>attraction = two_synonyms_attraction, score = 3\<rparr>] \<and>
   (3 :: int) =
     2 * int (card {s \<in> set [word_healing].
                \<exists>t \<in> set (example_parse (get_or_empty
                           (travel_style_keywords two_synonyms_attraction))).
                  example_match s t}) +
     (if \<exists>l \<in> set [word_sea].
           \<exists>t \<in> set (example_parse (get_or_empty
                      (landscape_keywords two_synonyms_attraction))). example_match l t
      then 1 else 0)"
proof -
  have d: "distinct [word_healing]" by simp
  have v: "score_and_rank_attractions example_parse example_match [two_synonyms_attraction]
       [word_healing] [word_sea]
     = [\<lparr>attraction = two_synonyms_attraction, score = 3\<rparr>]"
    by (simp add: score_and_rank_attractions_def sorted_reverse_def score_all_def
        example_scores)
  from score_and_rank_attractions_scores [OF d, of example_parse example_match
      "[two_synonyms_attraction]" "[word_sea]"]
  have "\<forall>x \<in> set [\<lparr>attraction = two_synonyms_attraction, score = 3 :: int\<rparr>].
      score x =
        2 * int (card {s \<in> set [word_healing].
                   \<exists>t \<in> set (example_parse (get_or_empty
                              (travel_style_keywords (attraction x)))).
                     example_match s t}) +
        (if \<exists>l \<in> set [word_sea].
              \<exists>t \<in> set (example_parse (get_or_empty
                         (landscape_keywords (attraction x)))). example_match l t
         then 1 else 0)"
    unfolding v by (rule conjunct2)
  then have "(3 :: int) =
     2 * int (card {s \<in> set [word_healing].
                \<exists>t \<in> set (example_parse (get_or_empty
                           (travel_style_keywords two_synonyms_attraction))).
                  example_match s t}) +
     (if \<exists>l \<in> set [word_sea].
           \<exists>t \<in> set (example_parse (get_or_empty
                      (landscape_keywords two_synonyms_attraction))). example_match l t
      then 1 else 0)"
    by simp
  with d v show ?thesis by blast
qed

theorem score_and_rank_attractions_order_witness:
  "score_and_rank_attractions example_parse example_match example_attractions
       [word_healing] [word_sea] = example_ranked \<and>
   map score example_ranked = [3, 3, 2, 2, 0] \<and>
   sorted (rev (map score example_ranked)) \<and>
   mset example_ranked
     = mset (score_all example_parse example_match example_attractions
               [word_healing] [word_sea]) \<and>
   (\<forall>j. filter (\<lambda>x. score x = j) example_ranked
         = filter (\<lambda>x. score x = j)
             (score_all example_parse example_match example_attractions
                [word_healing] [word_sea])) \<and>
   map attraction (score_all example_parse example_match example_attractions
       [word_healing] [word_sea]) = example_attractions"
proof -
  have "map score example_ranked = [3, 3, 2, 2, 0]"
    by (simp add: example_ranked_def)
  with example_ranking
    score_and_rank_attractions_order [of example_parse example_match
      example_attractions "[word_healing]" "[word_sea]", unfolded example_ranking]
  show ?thesis by blast
qed

section \<open>Proofs: the guard of generateFromSelections\<close>

text \<open>
  The guard of \<^verbatim>\<open>generateFromSelections\<close>, a function that nothing calls: without a
  farm in the selections it returns before any request, and the button it belongs to is
  disabled; a request it makes carries the selected farm.
\<close>

lemma generateFromSelections_guard:
  "(farm sel = None \<longrightarrow> generateFromSelections sel request = Inl NoFarmSelectedError) \<and>
   (\<forall>req. generateFromSelections sel request = Inr req \<longrightarrow>
      (\<exists>f. farm sel = Some f \<and> selected_farm req = Some (raw_or_card f)) \<and>
      (\<exists>ts. selected_tours req = map raw_or_card ts \<and>
            (tours sel = Some ts \<or> tours sel = None \<and> ts = []))) \<and>
   make_schedule_disabled sel = (farm sel = None)"
proof (cases "farm sel")
  case None
  then show ?thesis
    by (simp add: generateFromSelections_def make_schedule_disabled_def)
next
  case (Some f)
  show ?thesis
  proof (cases "tours sel")
    case None
    with Some show ?thesis
      by (simp add: generateFromSelections_def make_schedule_disabled_def)
  next
    case (Some ts)
    with \<open>farm sel = Some f\<close> show ?thesis
      by (auto simp: generateFromSelections_def make_schedule_disabled_def)
  qed
qed

lemma generateFromSelections_examples:
  "farm no_selection = None \<and>
   generateFromSelections no_selection [] = Inl NoFarmSelectedError \<and>
   make_schedule_disabled no_selection \<and>
   generateFromSelections example_selection [104, 105] =
     Inr \<lparr>natural_request = [104, 105],
          selected_farm = Some (Raw 7),
          selected_tours = [Raw 1, Card \<lparr>card_id = [98], title = [66], raw = None\<rparr>]\<rparr> \<and>
   \<not> make_schedule_disabled example_selection"
proof -
  have a: "farm no_selection = None" by (simp add: no_selection_def)
  have b: "generateFromSelections example_selection [104, 105] =
     Inr \<lparr>natural_request = [104, 105],
          selected_farm = Some (Raw 7),
          selected_tours = [Raw 1, Card \<lparr>card_id = [98], title = [66], raw = None\<rparr>]\<rparr>"
    by (simp add: generateFromSelections_def example_selection_def raw_or_card_def)
  have c: "farm example_selection \<noteq> None" by (simp add: example_selection_def)
  from a b c
    generateFromSelections_guard [of no_selection "[]"]
    generateFromSelections_guard [of example_selection "[104, 105]"]
  show ?thesis by simp
qed

section \<open>Proofs: what the client stores after a call to the engine\<close>

lemma callEngine_failure:
  "engine body = NotOk status \<or> engine body = Threw
     \<Longrightarrow> data_or_self (callEngine mock_day engine body) = mock_object mock_day"
  by (auto simp: callEngine_def data_or_self_def mockPlan_def)

lemma store_mock_object:
  "store_schedule st (mock_object mock_day) =
     st\<lparr>last_schedule := Some (mock_object mock_day),
        timeline := map TimelineEntry (mock_timeline mock_day),
        calendar := []\<rparr>"
  by (simp add: store_schedule_def mock_object_def truthy_def)

lemma mock_object_no_itinerary: "sched_itinerary (mock_object mock_day) = None"
  by (simp add: mock_object_def)

lemma renderScheduleTable_mock: "renderScheduleTable (mock_object mock_day) = NotCreatedNotice"
  by (simp add: renderScheduleTable_def mock_object_def)

text \<open>
  C5. A revision that fails in the engine (a status that is not ok, or a request that
  throws) is not reported as a failure: the client shows "revised as requested", and the
  stored schedule, timeline and calendar are replaced by the mock plan, so the prior
  itinerary is gone.
\<close>

theorem sendScheduleFeedback_overwrites_on_failure:
  assumes "truthy (user_id st)"
    and "engine (user_id st, feedback) = NotOk status \<or> engine (user_id st, feedback) = Threw"
  shows "sendScheduleFeedback onboarding mock_day engine st feedback =
           (Inr (mock_object mock_day),
            st\<lparr>last_schedule := Some (mock_object mock_day),
               timeline := map TimelineEntry (mock_timeline mock_day),
               calendar := []\<rparr>) \<and>
         fst (handleScheduleFeedback onboarding mock_day engine st feedback)
           = RevisedAsRequested NotCreatedNotice \<and>
         (\<forall>prior. last_schedule st = Some prior \<and> sched_itinerary prior \<noteq> None \<longrightarrow>
            last_schedule (snd (handleScheduleFeedback onboarding mock_day engine st feedback))
              \<noteq> last_schedule st)"
proof -
  from assms(1) have u: "ensure_user_id onboarding st = Inr st"
    by (simp add: ensure_user_id_def)
  from assms(2) have m: "data_or_self (callEngine mock_day engine (user_id st, feedback))
      = mock_object mock_day"
    by (rule callEngine_failure)
  have s: "sendScheduleFeedback onboarding mock_day engine st feedback =
           (Inr (mock_object mock_day),
            st\<lparr>last_schedule := Some (mock_object mock_day),
               timeline := map TimelineEntry (mock_timeline mock_day),
               calendar := []\<rparr>)"
    by (simp add: sendScheduleFeedback_def u m Let_def store_mock_object)
  then have h: "handleScheduleFeedback onboarding mock_day engine st feedback =
           (RevisedAsRequested NotCreatedNotice,
            st\<lparr>last_schedule := Some (mock_object mock_day),
               timeline := map TimelineEntry (mock_timeline mock_day),
               calendar := []\<rparr>)"
    by (simp add: handleScheduleFeedback_def renderScheduleTable_mock)
  have "last_schedule (snd (handleScheduleFeedback onboarding mock_day engine st feedback))
      \<noteq> last_schedule st"
    if "last_schedule st = Some prior" "sched_itinerary prior \<noteq> None" for prior
  proof
    assume "last_schedule (snd (handleScheduleFeedback onboarding mock_day engine st feedback))
      = last_schedule st"
    with h that(1) have "prior = mock_object mock_day" by simp
    with that(2) show False by (simp add: mock_object_no_itinerary)
  qed
  with s h show ?thesis by simp
qed

theorem sendScheduleFeedback_overwrites_on_failure_witness:
  "truthy (user_id example_state) \<and>
   refusing_engine (user_id example_state, [50 :: nat]) = NotOk 400 \<and>
   last_schedule example_state = Some example_schedule_object \<and>
   sched_itinerary example_schedule_object = Some example_itinerary \<and>
   fst (handleScheduleFeedback no_onboarding example_mock_day refusing_engine example_state [50])
     = RevisedAsRequested NotCreatedNotice \<and>
   last_schedule (snd (handleScheduleFeedback no_onboarding example_mock_day refusing_engine
       example_state [50])) = Some (mock_object example_mock_day) \<and>
   last_schedule (snd (handleScheduleFeedback no_onboarding example_mock_day refusing_engine
       example_state [50])) \<noteq> last_schedule example_state \<and>
   calendar (snd (sendScheduleFeedback no_onboarding example_mock_day refusing_engine
       example_state [50])) = []"
proof -
  have a: "truthy (user_id example_state)"
    by (simp add: example_state_def truthy_def)
  have b: "refusing_engine (user_id example_state, [50 :: nat]) = NotOk 400
      \<or> refusing_engine (user_id example_state, [50 :: nat]) = Threw"
    by (simp add: refusing_engine_def)
  have c: "last_schedule example_state = Some example_schedule_object"
    by (simp add: example_state_def)
  have d: "sched_itinerary example_schedule_object = Some example_itinerary"
    by (simp add: example_schedule_object_def)
  note t = sendScheduleFeedback_overwrites_on_failure
      [where st = example_state and engine = refusing_engine and feedback = "[50]"
         and status = 400 and onboarding = no_onboarding and mock_day = example_mock_day,
       OF a b]
  from t have e: "fst (handleScheduleFeedback no_onboarding example_mock_day refusing_engine
      example_state [50]) = RevisedAsRequested NotCreatedNotice"
    by blast
  from t c d have f: "last_schedule (snd (handleScheduleFeedback no_onboarding example_mock_day
      refusing_engine example_state [50])) \<noteq> last_schedule example_state"
    by blast
  from t have g: "sendScheduleFeedback no_onboarding example_mock_day refusing_engine
      example_state [50] =
        (Inr (mock_object example_mock_day),
         example_state\<lparr>last_schedule := Some (mock_object example_mock_day),
            timeline := map TimelineEntry (mock_timeline example_mock_day),
            calendar := []\<rparr>)"
    by blast
  then have h: "last_schedule (snd (handleScheduleFeedback no_onboarding example_mock_day
      refusing_engine example_state [50])) = Some (mock_object example_mock_day)"
    and i: "calendar (snd (sendScheduleFeedback no_onboarding example_mock_day refusing_engine
       example_state [50])) = []"
    by (simp_all add: handleScheduleFeedback_def)
  from a c d e f h i show ?thesis
    by (simp add: refusing_engine_def)
qed



section \<open>Proofs: revision from feedback\<close>

lemma filter_other_days_replace_day:
  assumes "\<forall>i \<in> set new. day i = d"
  shows "filter (\<lambda>i. day i \<noteq> d) (replace_day d new its) = filter (\<lambda>i. day i \<noteq> d) its"
proof -
  have n: "filter (\<lambda>i. day i \<noteq> d) new = []"
    using assms by (simp add: filter_empty_conv)
  have "filter (\<lambda>i. day i \<noteq> d) its
      = filter (\<lambda>i. day i \<noteq> d) (takeWhile (\<lambda>i. day i \<noteq> d) its @ dropWhile (\<lambda>i. day i \<noteq> d) its)"
    by simp
  also have "\<dots> = filter (\<lambda>i. day i \<noteq> d) (takeWhile (\<lambda>i. day i \<noteq> d) its)
      @ filter (\<lambda>i. day i \<noteq> d) (dropWhile (\<lambda>i. day i \<noteq> d) its)"
    by (simp only: filter_append)
  finally show ?thesis
    by (simp add: replace_day_def n)
qed

lemma filter_farm_replace_day:
  assumes "\<not> farm_day its d" "\<forall>i \<in> set new. \<not> is_farm i"
  shows "filter is_farm (replace_day d new its) = filter is_farm its"
proof -
  from assms(1) have nf: "\<forall>i \<in> set its. is_farm i \<longrightarrow> day i \<noteq> d"
    by (auto simp: farm_day_def list_ex_iff)
  have n: "filter is_farm new = []"
    using assms(2) by (simp add: filter_empty_conv)
  have "filter is_farm (filter (\<lambda>i. day i \<noteq> d) xs) = filter is_farm xs"
    if "set xs \<subseteq> set its" for xs
    using that nf by (induction xs) auto
  then have "filter is_farm (filter (\<lambda>i. day i \<noteq> d) (dropWhile (\<lambda>i. day i \<noteq> d) its))
      = filter is_farm (dropWhile (\<lambda>i. day i \<noteq> d) its)"
    by (simp add: set_dropWhileD subsetI)
  moreover have "filter is_farm its
      = filter is_farm (takeWhile (\<lambda>i. day i \<noteq> d) its)
        @ filter is_farm (dropWhile (\<lambda>i. day i \<noteq> d) its)"
    by (simp only: filter_append [symmetric] takeWhile_dropWhile_id)
  ultimately show ?thesis
    by (simp add: replace_day_def n)
qed

lemma tour_label_not_farm: "\<not> is_farm (as_tour_of_day d alt)"
  by (simp add: is_farm_def as_tour_of_day_def farm_label_neq_tour_label [symmetric])

text \<open>
  C4. When the revision succeeds, the feedback referenced a day that exists and is not
  a farm day; the items of every other day are the items of the input, in their order;
  the farm items are the farm items of the input; the id and the number of days are
  those of the input; the summary is the summary of the new items.
\<close>

theorem revise_changes_only_the_day:
  assumes "revise day_reference top_alternative it feedback = Some (Inr it')"
  shows "\<exists>d. day_reference feedback = Some d \<and>
           day_exists (itinerary it) d \<and> \<not> farm_day (itinerary it) d \<and>
           filter (\<lambda>i. day i \<noteq> d) (itinerary it') = filter (\<lambda>i. day i \<noteq> d) (itinerary it) \<and>
           filter is_farm (itinerary it') = filter is_farm (itinerary it) \<and>
           itinerary_id it' = itinerary_id it \<and>
           total_days it' = total_days it \<and>
           summary it' = summarize (itinerary it') (region (summary it))"
proof -
  from assms obtain d where d: "day_reference feedback = Some d"
    by (auto simp: revise_def split: option.splits)
  from assms d have ok: "day_exists (itinerary it) d" "\<not> farm_day (itinerary it) d"
    by (auto simp: revise_def split: option.splits if_splits)
  from assms d ok obtain alt where alt: "top_alternative (itinerary it) d = Some alt"
    by (auto simp: revise_def split: option.splits)
  let ?items = "replace_day d [as_tour_of_day d alt] (itinerary it)"
  from assms d ok alt
  have it': "it' = it\<lparr>itinerary := ?items, summary := summarize ?items (region (summary it))\<rparr>"
    by (simp add: revise_def Let_def)
  have "filter (\<lambda>i. day i \<noteq> d) ?items = filter (\<lambda>i. day i \<noteq> d) (itinerary it)"
    by (rule filter_other_days_replace_day) (simp add: as_tour_of_day_def)
  moreover have "filter is_farm ?items = filter is_farm (itinerary it)"
    using ok(2) by (rule filter_farm_replace_day) (simp add: tour_label_not_farm)
  ultimately show ?thesis
    using d ok it' by simp
qed

lemma example_day_references:
  "example_day_reference [49] = Some 1"
  "example_day_reference [50] = Some 2"
  "example_day_reference [57] = Some 9"
  "example_day_reference [104, 105] = None"
  by (simp_all add: example_day_reference_def)

lemma example_days:
  "day_exists example_itinerary 1" "\<not> farm_day example_itinerary 1"
  "farm_day example_itinerary 2" "\<not> day_exists example_itinerary 9"
  by (simp_all add: day_exists_def farm_day_def is_farm_def example_itinerary_def item_of_def
      farm_label_def tour_label_def)

lemma example_replace_day:
  "replace_day 1 [as_tour_of_day 1 \<lparr>day = 0, date = [], schedule_type = [],
       name = [122], start_time = [], address = []\<rparr>] example_itinerary
     = \<lparr>day = 1, date = [], schedule_type = tour_label, name = [122],
          start_time = [], address = []\<rparr> # tl example_itinerary"
  by (simp add: replace_day_def as_tour_of_day_def example_itinerary_def item_of_def)

lemma example_summary:
  "summarize (\<lparr>day = 1, date = [], schedule_type = tour_label, name = [122],
          start_time = [], address = []\<rparr> # tl example_itinerary) [103]
     = \<lparr>farm_days_count = 2, tour_days_count = 2, region = [103]\<rparr>"
  by (simp add: summarize_def is_farm_def example_itinerary_def item_of_def
      farm_label_def tour_label_def)

lemma example_revision:
  "revise example_day_reference example_alternative example_stored [49]
     = Some (Inr example_revised)"
proof -
  have "itinerary example_stored = example_itinerary"
    and "region (summary example_stored) = [103]"
    by (simp_all add: example_stored_def summarize_def)
  then show ?thesis
    by (simp add: revise_def example_day_references example_days example_alternative_def
        Let_def example_replace_day example_summary example_revised_def)
qed

theorem revise_changes_only_the_day_witness:
  "revise example_day_reference example_alternative example_stored [49]
     = Some (Inr example_revised) \<and>
   filter (\<lambda>i. day i \<noteq> 1) (itinerary example_revised)
     = filter (\<lambda>i. day i \<noteq> 1) (itinerary example_stored) \<and>
   filter is_farm (itinerary example_revised) = filter is_farm (itinerary example_stored) \<and>
   itinerary_id example_revised = itinerary_id example_stored \<and>
   map name (itinerary example_stored) = [[97], [102], [102], [98], [99], [98]] \<and>
   map name (itinerary example_revised) = [[122], [102], [102], [98], [99], [98]]"
proof -
  from revise_changes_only_the_day [OF example_revision] example_day_references(1)
  have "filter (\<lambda>i. day i \<noteq> 1) (itinerary example_revised)
      = filter (\<lambda>i. day i \<noteq> 1) (itinerary example_stored)"
    and "filter is_farm (itinerary example_revised) = filter is_farm (itinerary example_stored)"
    and "itinerary_id example_revised = itinerary_id example_stored"
    by auto
  moreover have "map name (itinerary example_stored) = [[97], [102], [102], [98], [99], [98]]"
    and "map name (itinerary example_revised) = [[122], [102], [102], [98], [99], [98]]"
    by (simp_all add: example_stored_def example_revised_def example_itinerary_def item_of_def)
  ultimately show ?thesis
    using example_revision by simp
qed

section \<open>Proofs: duration extraction\<close>




















end
